theory Spec2Isabelle
  imports Main "HOL-Library.Sublist"
begin

section \<open>JavaScript values\<close>

text \<open>
  The values the request handler of \<^verbatim>\<open>new.js\<close> touches. \<open>dataObj\<close> is what
  \<^verbatim>\<open>JSON.parse\<close> returned, so it is a JSON value; a property lookup on it may also
  reach an inherited member of the runtime (\<open>Native\<close>), and a lookup that finds nothing is
  \<open>Undefined\<close>. Numbers are the integers; an object is the list of its own fields in
  insertion order.
\<close>

datatype jsval =
    Undefined
  | Null
  | Bool bool
  | Num int
  | Str string
  | Arr "jsval list"
  | Obj "(string \<times> jsval) list"
  | Native string

text \<open>What a \<^verbatim>\<open>throw\<close> carries: the error's kind and, for a file error, the path.\<close>

datatype js_error =
    TypeError
  | SyntaxError
  | SystemError string
  | OtherError string

subsection \<open>Decimal index strings\<close>

definition digit_char :: "nat \<Rightarrow> char" where
  "digit_char d = ''0123456789'' ! d"

fun show_nat :: "nat \<Rightarrow> string" where
  "show_nat n = (if n < 10 then [digit_char n] else show_nat (n div 10) @ [digit_char (n mod 10)])"

declare show_nat.simps [simp del]

subsection \<open>Property lookup \<^verbatim>\<open>v[k]\<close>\<close>

text \<open>
  The own properties of an array of length \<open>n\<close> are the canonical decimal strings of
  \<open>0 .. n - 1\<close> and \<^verbatim>\<open>length\<close>; of a string likewise, each index holding one
  character (a string is the list of its characters here); of an object its fields. Every other key is looked up along the prototype
  chain, which belongs to the runtime: \<open>inherited v k\<close> is what the chain holds for
  \<open>k\<close> (\<open>Undefined\<close> when nothing). Reading a property of \<^verbatim>\<open>undefined\<close> or
  \<^verbatim>\<open>null\<close> throws a TypeError.
\<close>

definition own_index :: "'a list \<Rightarrow> string \<Rightarrow> 'a option" where
  "own_index xs k = map_of (zip (map show_nat [0 ..< length xs]) xs) k"

fun js_get :: "(jsval \<Rightarrow> string \<Rightarrow> jsval) \<Rightarrow> jsval \<Rightarrow> string \<Rightarrow> js_error + jsval" where
  "js_get inherited Undefined k = Inl TypeError"
| "js_get inherited Null k = Inl TypeError"
| "js_get inherited (Arr xs) k =
     Inr (case own_index xs k of
            Some v \<Rightarrow> v
          | None \<Rightarrow> if k = ''length'' then Num (int (length xs)) else inherited (Arr xs) k)"
| "js_get inherited (Str s) k =
     Inr (case own_index s k of
            Some c \<Rightarrow> Str [c]
          | None \<Rightarrow> if k = ''length'' then Num (int (length s)) else inherited (Str s) k)"
| "js_get inherited (Obj fs) k =
     Inr (case map_of fs k of Some v \<Rightarrow> v | None \<Rightarrow> inherited (Obj fs) k)"
| "js_get inherited v k = Inr (inherited v k)"

section \<open>The parsed request URL\<close>

text \<open>
  \<^verbatim>\<open>url.parse(req.url, true)\<close> is Node's; the handler reads two fields of its result.
  \<open>pathname\<close> is a string or \<^verbatim>\<open>null\<close>; \<open>query\<close> maps a parameter to its value,
  a string, or the array of its values when the parameter is repeated.
\<close>

datatype qval = QStr string | QArr "string list"

record parsed_url =
  query :: "string \<rightharpoonup> qval"
  pathname :: "string option"

fun join_with :: "string \<Rightarrow> string list \<Rightarrow> string" where
  "join_with sep [] = []"
| "join_with sep [x] = x"
| "join_with sep (x # y # ys) = x @ sep @ join_with sep (y # ys)"

text \<open>
  The property key of \<^verbatim>\<open>dataObj[query.id]\<close>: the string itself, the comma-joined
  array, and \<^verbatim>\<open>"undefined"\<close> when the parameter is missing.
\<close>

fun to_property_key :: "qval option \<Rightarrow> string" where
  "to_property_key None = ''undefined''"
| "to_property_key (Some (QStr s)) = s"
| "to_property_key (Some (QArr ss)) = join_with '','' ss"

section \<open>The response object\<close>

text \<open>
  \<open>written_head\<close> is the status and the headers \<^verbatim>\<open>res.writeHead\<close> was called with,
  \<open>ended_body\<close> the body \<^verbatim>\<open>res.end\<close> was called with; both are \<open>None\<close> on the
  response the server hands to the handler.
\<close>

record response =
  written_head :: "(nat \<times> (string \<times> string) list) option"
  ended_body :: "string option"

definition fresh_response :: response where
  "fresh_response = \<lparr>written_head = None, ended_body = None\<rparr>"

definition writeHead :: "nat \<Rightarrow> (string \<times> string) list \<Rightarrow> response \<Rightarrow> response" where
  "writeHead status hs res = res\<lparr>written_head := Some (status, hs)\<rparr>"

definition end_response :: "string \<Rightarrow> response \<Rightarrow> response" where
  "end_response b res = res\<lparr>ended_body := Some b\<rparr>"

section \<open>String replacement with a string pattern\<close>

text \<open>
  \<^verbatim>\<open>s.replace(pattern, replacement)\<close> with two strings replaces the first occurrence
  of the pattern only, and expands in the replacement the patterns \<^verbatim>\<open>$$\<close> (a dollar),
  \<^verbatim>\<open>$&\<close> (the matched text), \<^verbatim>\<open>$`\<close> (the text before the match) and
  \<^verbatim>\<open>$'\<close> (the text after it); with no capture group every other \<^verbatim>\<open>$\<close> stands
  for itself.
\<close>

fun split_first :: "string \<Rightarrow> string \<Rightarrow> (string \<times> string) option" where
  "split_first pat [] = (if pat = [] then Some ([], []) else None)"
| "split_first pat (c # cs) =
     (if prefix pat (c # cs) then Some ([], drop (length pat) (c # cs))
      else map_option (\<lambda>(preceding, following). (c # preceding, following)) (split_first pat cs))"

fun get_substitution :: "string \<Rightarrow> string \<Rightarrow> string \<Rightarrow> string \<Rightarrow> string" where
  "get_substitution matched preceding following [] = []"
| "get_substitution matched preceding following [c] = [c]"
| "get_substitution matched preceding following (c # d # cs) =
     (if c = CHR ''$'' \<and> d = CHR ''$'' then CHR ''$'' # get_substitution matched preceding following cs
      else if c = CHR ''$'' \<and> d = CHR ''&'' then matched @ get_substitution matched preceding following cs
      else if c = CHR ''$'' \<and> d = CHR 0x60 then preceding @ get_substitution matched preceding following cs
      else if c = CHR ''$'' \<and> d = CHR 0x27 then following @ get_substitution matched preceding following cs
      else c # get_substitution matched preceding following (d # cs))"

definition js_replace :: "string \<Rightarrow> string \<Rightarrow> string \<Rightarrow> string" where
  "js_replace s pat replacement =
     (case split_first pat s of
        None \<Rightarrow> s
      | Some (preceding, following) \<Rightarrow> preceding @ get_substitution pat preceding following replacement @ following)"

section \<open>The server of \<^verbatim>\<open>new.js\<close>\<close>

text \<open>The five top-level constants the handler closes over (lines 56 to 63).\<close>

record globals =
  tempOverview :: string
  tempCard :: string
  tempProduct :: string
  data :: string
  dataObj :: jsval

text \<open>
  What the handler calls and this repository's \<^verbatim>\<open>new.js\<close> does not define:
  \<^verbatim>\<open>url.parse\<close> of Node, the prototype chain of the runtime, and the function the
  module \<^verbatim>\<open>./modules/replaceTemplate\<close> exports, which returns a string or throws.
\<close>

record runtime =
  url_parse :: "string \<Rightarrow> parsed_url"
  inherited :: "jsval \<Rightarrow> string \<Rightarrow> jsval"
  replaceTemplateFn :: "string \<Rightarrow> jsval \<Rightarrow> js_error + string"

record request =
  url :: string

text \<open>\<^verbatim>\<open>xs.map(f)\<close> where \<open>f\<close> may throw: the first throw ends the loop.\<close>

fun map_throwing :: "('a \<Rightarrow> js_error + 'b) \<Rightarrow> 'a list \<Rightarrow> js_error + 'b list" where
  "map_throwing f [] = Inr []"
| "map_throwing f (x # xs) =
     (case f x of
        Inl e \<Rightarrow> Inl e
      | Inr y \<Rightarrow> (case map_throwing f xs of Inl e \<Rightarrow> Inl e | Inr ys \<Rightarrow> Inr (y # ys)))"

text \<open>
  Each branch of the handler returns the exception that left it, if any, and the response
  object as the calls made until then have set it.
\<close>

definition overviewBranch :: "runtime \<Rightarrow> globals \<Rightarrow> response \<Rightarrow> js_error option \<times> response" where
  "overviewBranch rt g res =
     (case dataObj g of
        Arr els \<Rightarrow>
          (case map_throwing (replaceTemplateFn rt (tempCard g)) els of
             Inl e \<Rightarrow> (Some e, res)
           | Inr cards \<Rightarrow>
               (let cardsHtml = concat cards;
                    output = js_replace (tempOverview g) ''{%PRODUCT_CARDS%}'' cardsHtml;
                    res1 = writeHead 200 [(''content-type'', ''text/html'')] res
                in (None, end_response output res1)))
      | _ \<Rightarrow> (Some TypeError, res))"

definition productBranch ::
  "runtime \<Rightarrow> globals \<Rightarrow> (string \<rightharpoonup> qval) \<Rightarrow> response \<Rightarrow> js_error option \<times> response" where
  "productBranch rt g q res =
     (let res1 = writeHead 200 [(''content-type'', ''text/html'')] res
      in case js_get (inherited rt) (dataObj g) (to_property_key (q ''id'')) of
           Inl e \<Rightarrow> (Some e, res1)
         | Inr product \<Rightarrow>
             (case replaceTemplateFn rt (tempProduct g) product of
                Inl e \<Rightarrow> (Some e, res1)
              | Inr output \<Rightarrow> (None, end_response output res1)))"

definition apiBranch :: "globals \<Rightarrow> response \<Rightarrow> js_error option \<times> response" where
  "apiBranch g res =
     (let res1 = writeHead 200 [(''content-type'', ''application/json'')] res
      in (None, end_response (data g) res1))"

definition notFoundBranch :: "response \<Rightarrow> js_error option \<times> response" where
  "notFoundBranch res =
     (let res1 = writeHead 404 [(''content-type'', ''text/html''), (''my-own-header'', ''hello-world'')] res
      in (None, end_response ''<h1>Page not found</h1>'' res1))"

definition requestHandler ::
  "runtime \<Rightarrow> globals \<Rightarrow> request \<Rightarrow> response \<Rightarrow> js_error option \<times> response" where
  "requestHandler rt g req res =
     (let parsed = url_parse rt (url req); q = query parsed; p = pathname parsed
      in if p = Some ''/'' \<or> p = Some ''/overview'' then overviewBranch rt g res
         else if p = Some ''/product'' then productBranch rt g q res
         else if p = Some ''/api'' then apiBranch g res
         else notFoundBranch res)"

section \<open>The handler with the records passed by reference\<close>

text \<open>
  JavaScript hands an object to a function by reference: the renderer gets the very
  records that \<open>dataObj\<close> holds and could change them. To say that request handling
  leaves the loaded constants alone, the handler is written out once more with this
  effect in it. A by-reference renderer returns what it returns or throws, and with it
  its second argument as the call leaves it. A value that is not an object or an array
  is passed by value and stays what it was.
\<close>

type_synonym renderer_by_ref = "string \<Rightarrow> jsval \<Rightarrow> (js_error + string) \<times> jsval"

fun after_call :: "jsval \<Rightarrow> jsval \<Rightarrow> jsval" where
  "after_call (Obj props) v' = v'"
| "after_call (Arr xs) v' = v'"
| "after_call v v' = v"

text \<open>
  \<^verbatim>\<open>dataObj.map(el => replaceTemplate(tempCard, el))\<close>: the cards, or the first throw,
  and the elements as the calls made until then leave them.
\<close>

fun map_by_ref ::
  "(jsval \<Rightarrow> (js_error + string) \<times> jsval) \<Rightarrow> jsval list \<Rightarrow> (js_error + string list) \<times> jsval list" where
  "map_by_ref f [] = (Inr [], [])"
| "map_by_ref f (el # els) =
     (case f el of
        (Inl e, el') \<Rightarrow> (Inl e, after_call el el' # els)
      | (Inr html, el') \<Rightarrow>
          (case map_by_ref f els of
             (Inl e, els') \<Rightarrow> (Inl e, after_call el el' # els')
           | (Inr cards, els') \<Rightarrow> (Inr (html # cards), after_call el el' # els')))"

text \<open>
  Where \<^verbatim>\<open>dataObj[k]\<close> is an own property of an array or an object, a change the
  renderer makes to the value it was given is a change of that property. A value found
  along the prototype chain, and \<^verbatim>\<open>length\<close>, are not held by \<open>dataObj\<close>.
\<close>

fun update_first :: "string \<Rightarrow> jsval \<Rightarrow> (string \<times> jsval) list \<Rightarrow> (string \<times> jsval) list" where
  "update_first k v' [] = []"
| "update_first k v' ((k', v) # props) =
     (if k' = k then (k', after_call v v') # props else (k', v) # update_first k v' props)"

fun put_back :: "jsval \<Rightarrow> string \<Rightarrow> jsval \<Rightarrow> jsval" where
  "put_back (Arr xs) k v' =
     (case own_index [0 ..< length xs] k of
        Some i \<Rightarrow> Arr (xs[i := after_call (xs ! i) v'])
      | None \<Rightarrow> Arr xs)"
| "put_back (Obj props) k v' = Obj (update_first k v' props)"
| "put_back d k v' = d"

text \<open>
  The branches and the handler as before, each now returning also the constants as it
  leaves them. Only \<open>dataObj\<close> can differ, and only by what the renderer did to the
  records it was given: the handler itself assigns to none of the five constants, and
  \<^verbatim>\<open>map\<close>, \<^verbatim>\<open>join\<close>, \<^verbatim>\<open>replace\<close> and the index read build new values.
\<close>

definition overviewBranch_by_ref ::
  "renderer_by_ref \<Rightarrow> globals \<Rightarrow> response \<Rightarrow> js_error option \<times> response \<times> globals" where
  "overviewBranch_by_ref render g res =
     (case dataObj g of
        Arr els \<Rightarrow>
          (case map_by_ref (render (tempCard g)) els of
             (Inl e, els') \<Rightarrow> (Some e, res, g\<lparr>dataObj := Arr els'\<rparr>)
           | (Inr cards, els') \<Rightarrow>
               (let cardsHtml = concat cards;
                    output = js_replace (tempOverview g) ''{%PRODUCT_CARDS%}'' cardsHtml;
                    res1 = writeHead 200 [(''content-type'', ''text/html'')] res
                in (None, end_response output res1, g\<lparr>dataObj := Arr els'\<rparr>)))
      | _ \<Rightarrow> (Some TypeError, res, g))"

definition productBranch_by_ref ::
  "runtime \<Rightarrow> renderer_by_ref \<Rightarrow> globals \<Rightarrow> (string \<rightharpoonup> qval) \<Rightarrow> response
     \<Rightarrow> js_error option \<times> response \<times> globals" where
  "productBranch_by_ref rt render g q res =
     (let res1 = writeHead 200 [(''content-type'', ''text/html'')] res;
          key = to_property_key (q ''id'')
      in case js_get (inherited rt) (dataObj g) key of
           Inl e \<Rightarrow> (Some e, res1, g)
         | Inr product \<Rightarrow>
             (case render (tempProduct g) product of
                (Inl e, product') \<Rightarrow> (Some e, res1, g\<lparr>dataObj := put_back (dataObj g) key product'\<rparr>)
              | (Inr output, product') \<Rightarrow>
                  (None, end_response output res1, g\<lparr>dataObj := put_back (dataObj g) key product'\<rparr>)))"

definition requestHandler_by_ref ::
  "runtime \<Rightarrow> renderer_by_ref \<Rightarrow> globals \<Rightarrow> request \<Rightarrow> response
     \<Rightarrow> js_error option \<times> response \<times> globals" where
  "requestHandler_by_ref rt render g req res =
     (let parsed = url_parse rt (url req); q = query parsed; p = pathname parsed
      in if p = Some ''/'' \<or> p = Some ''/overview'' then overviewBranch_by_ref render g res
         else if p = Some ''/product'' then productBranch_by_ref rt render g q res
         else if p = Some ''/api'' then (fst (apiBranch g res), snd (apiBranch g res), g)
         else (fst (notFoundBranch res), snd (notFoundBranch res), g))"


section \<open>Serving one request after another\<close>




section \<open>Startup: the top-level code of \<^verbatim>\<open>new.js\<close>\<close>

text \<open>
  The world the script runs in: the files that can be read, with their text (a path
  that is not there, or cannot be read, is \<open>None\<close>), the paths that can be written,
  whether the port can be bound, and the lines logged to the console so far.
\<close>

record world =
  files :: "string \<rightharpoonup> string"
  writable :: "string \<Rightarrow> bool"
  port_free :: bool
  console :: "string list"

definition readFileSync :: "world \<Rightarrow> string \<Rightarrow> js_error + string" where
  "readFileSync w path =
     (case files w path of None \<Rightarrow> Inl (SystemError path) | Some text \<Rightarrow> Inr text)"

definition writeFileSync :: "world \<Rightarrow> string \<Rightarrow> string \<Rightarrow> js_error + world" where
  "writeFileSync w path text =
     (if writable w path then Inr (w\<lparr>files := (files w)(path \<mapsto> text)\<rparr>)
      else Inl (SystemError path))"

definition console_log :: "string \<Rightarrow> world \<Rightarrow> world" where
  "console_log line w = w\<lparr>console := console w @ [line]\<rparr>"

text \<open>
  How the script ends: an exception no one catches ends the process (\<open>Aborted\<close>);
  otherwise the server listens with the constants it has loaded.
\<close>

datatype process = Aborted js_error world | Listening globals world

text \<open>
  The synchronous statements, lines 15 to 23 and 56 to 143, in their order.
  \<^verbatim>\<open>readFileSync\<close>, \<^verbatim>\<open>writeFileSync\<close> and \<^verbatim>\<open>JSON.parse\<close> throw on failure and
  nothing catches. \<^verbatim>\<open>JSON.parse\<close> is the runtime's and \<^verbatim>\<open>__dirname\<close> the
  directory of the script; both are parameters. \<^verbatim>\<open>server.listen\<close> binds an address
  given as an IP literal on the next tick, so its callback logs, or the process ends on
  the unhandled error of a port in use, before any callback of a file read runs.
\<close>

definition top_level :: "(string \<Rightarrow> js_error + jsval) \<Rightarrow> string \<Rightarrow> world \<Rightarrow> process" where
  "top_level JSON_parse dirname w0 =
     (case readFileSync w0 (dirname @ ''/txt/input.txt'') of
        Inl e \<Rightarrow> Aborted e w0
      | Inr textInput \<Rightarrow>
     (case readFileSync w0 (dirname @ ''/txt/append.txt'') of
        Inl e \<Rightarrow> Aborted e w0
      | Inr textAppend \<Rightarrow>
     (case writeFileSync w0 (dirname @ ''/txt/output.txt'') ''Hello World!'' of
        Inl e \<Rightarrow> Aborted e w0
      | Inr w1 \<Rightarrow>
     (let w2 = console_log ''Text written!'' w1 in
      case writeFileSync w2 ''final.txt'' (textInput @ [CHR 0x0A] @ textAppend) of
        Inl e \<Rightarrow> Aborted e w2
      | Inr w3 \<Rightarrow>
     (let w4 = console_log ''Final text written!'' w3 in
      case readFileSync w4 (dirname @ ''/templates/template-overview.html'') of
        Inl e \<Rightarrow> Aborted e w4
      | Inr tempOverview' \<Rightarrow>
     (case readFileSync w4 (dirname @ ''/templates/template-card.html'') of
        Inl e \<Rightarrow> Aborted e w4
      | Inr tempCard' \<Rightarrow>
     (case readFileSync w4 (dirname @ ''/templates/template-product.html'') of
        Inl e \<Rightarrow> Aborted e w4
      | Inr tempProduct' \<Rightarrow>
     (case readFileSync w4 (dirname @ ''/dev-data/data.json'') of
        Inl e \<Rightarrow> Aborted e w4
      | Inr data' \<Rightarrow>
     (case JSON_parse data' of
        Inl e \<Rightarrow> Aborted e w4
      | Inr dataObj' \<Rightarrow>
          if port_free w4
          then Listening \<lparr>tempOverview = tempOverview', tempCard = tempCard',
                 tempProduct = tempProduct', data = data', dataObj = dataObj'\<rparr>
                 (console_log ''Listening to local host...'' w4)
          else Aborted (SystemError ''listen'') w4)))))))))"

text \<open>
  The chain of asynchronous reads, lines 28 to 50. Its callbacks run once the
  synchronous code is through. Each callback that gets an error logs
  \<^verbatim>\<open>error!\<close> and returns; the last one ignores the error of the write.
\<close>

definition read_chain :: "string \<Rightarrow> world \<Rightarrow> world" where
  "read_chain dirname w =
     (case readFileSync w (dirname @ ''/txt/start.txt'') of
        Inl err \<Rightarrow> console_log ''error!'' w
      | Inr data1 \<Rightarrow>
     (case readFileSync w (dirname @ ''/txt/'' @ data1 @ ''.txt'') of
        Inl err \<Rightarrow> console_log ''error!'' w
      | Inr data2 \<Rightarrow>
     (let w1 = console_log data2 w in
      case readFileSync w1 (dirname @ ''/txt/append.txt'') of
        Inl err \<Rightarrow> console_log ''error!'' w1
      | Inr data3 \<Rightarrow>
     (let w2 = console_log data3 w1;
          w3 = (case writeFileSync w2 (dirname @ ''/txt/output.txt'') (data2 @ [CHR 0x0A] @ data3) of
                  Inl err \<Rightarrow> w2
                | Inr w' \<Rightarrow> w')
      in console_log ''File written!'' w3))))"

definition startup :: "(string \<Rightarrow> js_error + jsval) \<Rightarrow> string \<Rightarrow> world \<Rightarrow> process" where
  "startup JSON_parse dirname w =
     (case top_level JSON_parse dirname w of
        Aborted e w' \<Rightarrow> Aborted e w'
      | Listening g w' \<Rightarrow> Listening g (read_chain dirname w'))"

section \<open>The template renderer\<close>

text \<open>
  Modelled from the spec: the module \<^verbatim>\<open>./modules/replaceTemplate\<close> that line 7 of
  \<^verbatim>\<open>new.js\<close> imports is not among the sources. Section 4.1 of the specification
  describes it: given a template string and a record (a mapping of field name to value),
  every occurrence of \<^verbatim>\<open>{%FIELD_NAME%}\<close>, the field's name in upper case, is replaced
  by the field's value converted to text, and other placeholders stay as they are;
  section 1 calls it a single string-replace loop over a fixed set of tokens. The
  definitions of this section follow these words, the tokens being those of the
  record's fields.
\<close>

text \<open>Modelled from the spec: the upper case of a field name, letter by letter.\<close>

definition to_upper :: "char \<Rightarrow> char" where
  "to_upper c =
     (case map_of (zip ''abcdefghijklmnopqrstuvwxyz'' ''ABCDEFGHIJKLMNOPQRSTUVWXYZ'') c of
        Some u \<Rightarrow> u
      | None \<Rightarrow> c)"

text \<open>Modelled from the spec: a value converted to text, as JavaScript's \<^verbatim>\<open>String(v)\<close>.\<close>

fun to_text :: "jsval \<Rightarrow> string" where
  "to_text Undefined = ''undefined''"
| "to_text Null = ''null''"
| "to_text (Bool b) = (if b then ''true'' else ''false'')"
| "to_text (Num n) = (if n < 0 then CHR ''-'' # show_nat (nat (- n)) else show_nat (nat n))"
| "to_text (Str s) = s"
| "to_text (Arr xs) =
     join_with '','' (map (\<lambda>x. if x = Undefined \<or> x = Null then [] else to_text x) xs)"
| "to_text (Obj props) = ''[object Object]''"
| "to_text (Native name) = ''function '' @ name @ ''() { [native code] }''"

text \<open>Modelled from the spec: the placeholder token of a name, and of a record's field.\<close>

definition token :: "string \<Rightarrow> string" where
  "token name = ''{%'' @ name @ ''%}''"

definition placeholder :: "string \<Rightarrow> string" where
  "placeholder field = token (map to_upper field)"

text \<open>
  Modelled from the spec: one step of the string-replace loop. Every occurrence of the
  pattern is replaced, scanning from the left and going on behind each replacement.
\<close>

fun replaceAll :: "string \<Rightarrow> string \<Rightarrow> string \<Rightarrow> string" where
  "replaceAll pat rep [] = []"
| "replaceAll pat rep (c # cs) =
     (if pat \<noteq> [] \<and> prefix pat (c # cs) then rep @ replaceAll pat rep (drop (length pat - 1) cs)
      else c # replaceAll pat rep cs)"

text \<open>
  Modelled from the spec: the renderer of section 4.1, the replace loop over the
  record's fields in their order.
\<close>

fun replaceTemplate :: "string \<Rightarrow> (string \<times> jsval) list \<Rightarrow> string" where
  "replaceTemplate temp [] = temp"
| "replaceTemplate temp ((field, v) # props) =
     replaceTemplate (replaceAll (placeholder field) (to_text v) temp) props"

subsection \<open>Templates as literal text and placeholders\<close>

text \<open>
  A template read as a sequence of chunks: literal text, and placeholders
  \<^verbatim>\<open>{%NAME%}\<close>. A chunk of text is \<open>clean\<close> when it contains no \<^verbatim>\<open>{%\<close> and does
  not end in an opening brace, so that it cannot start a placeholder, alone or with the
  chunk after it; a name is well formed when it has no opening brace and no percent sign.
  \<open>fill\<close> is what a chunk should become: a placeholder that names a field of the
  record becomes the text of the first such field, any other chunk stays.
\<close>

datatype segment = Lit string | Hole string

fun seg_text :: "segment \<Rightarrow> string" where
  "seg_text (Lit s) = s"
| "seg_text (Hole name) = token name"

definition flatten :: "segment list \<Rightarrow> string" where
  "flatten segs = concat (map seg_text segs)"

fun clean :: "string \<Rightarrow> bool" where
  "clean [] = True"
| "clean [c] = (c \<noteq> CHR ''{'')"
| "clean (c # d # cs) = (\<not> (c = CHR ''{'' \<and> d = CHR ''%'') \<and> clean (d # cs))"

definition name_ok :: "string \<Rightarrow> bool" where
  "name_ok name = (CHR ''{'' \<notin> set name \<and> CHR ''%'' \<notin> set name)"

fun seg_ok :: "segment \<Rightarrow> bool" where
  "seg_ok (Lit s) = clean s"
| "seg_ok (Hole name) = name_ok name"

fun fill :: "(string \<times> jsval) list \<Rightarrow> segment \<Rightarrow> string" where
  "fill props (Lit s) = s"
| "fill props (Hole name) =
     (case map_of (map (\<lambda>(field, v). (map to_upper field, to_text v)) props) name of
        Some text \<Rightarrow> text
      | None \<Rightarrow> token name)"

fun subst :: "string \<Rightarrow> string \<Rightarrow> segment \<Rightarrow> segment" where
  "subst k rep (Lit s) = Lit s"
| "subst k rep (Hole n) = (if n = k then Lit rep else Hole n)"

section \<open>Example inputs\<close>

text \<open>
  A runtime for the examples. Its \<open>url_parse\<close> gives what \<^verbatim>\<open>url.parse\<close> gives on the
  URLs the examples request; nothing is inherited along the prototype chain for the keys
  they look up.
\<close>

definition example_url_parse :: "string \<Rightarrow> parsed_url" where
  "example_url_parse u =
     (if u = ''/product?id=0''
      then \<lparr>query = [''id'' \<mapsto> QStr ''0''], pathname = Some ''/product''\<rparr>
      else if u = ''/product?id=7''
      then \<lparr>query = [''id'' \<mapsto> QStr ''7''], pathname = Some ''/product''\<rparr>
      else \<lparr>query = Map.empty, pathname = Some u\<rparr>)"

text \<open>
  Modelled from the spec: the module's function as the handler calls it, on any value.
  On a record it is \<open>replaceTemplate\<close>. The specification gives no result for a value
  that is not a record; the examples let the call throw there, as reading a field of
  \<^verbatim>\<open>undefined\<close> does.
\<close>

definition render_value :: "string \<Rightarrow> jsval \<Rightarrow> js_error + string" where
  "render_value temp v =
     (case v of Obj props \<Rightarrow> Inr (replaceTemplate temp props) | _ \<Rightarrow> Inl TypeError)"

definition example_runtime :: runtime where
  "example_runtime =
     \<lparr>url_parse = example_url_parse,
      inherited = (\<lambda>v k. Undefined),
      replaceTemplateFn = render_value\<rparr>"


definition example_globals :: globals where
  \<open>example_globals =
     \<lparr>tempOverview = ''<main>{%PRODUCT_CARDS%}</main>'',
      tempCard = ''<p>{%PRODUCTNAME%}: {%PRICE%}</p>'',
      tempProduct = ''<h1>{%PRODUCTNAME%}</h1>'',
      data = ''[{"productName":"Avocado","price":"$$9"},{"productName":"Corn","price":2}]'',
      dataObj = Arr [Obj [(''productName'', Str ''Avocado''), (''price'', Str ''$$9'')],
                     Obj [(''productName'', Str ''Corn''), (''price'', Num 2)]]\<rparr>\<close>

text \<open>What \<^verbatim>\<open>JSON.parse\<close> gives on the one document of the examples' world.\<close>

definition example_JSON_parse :: "string \<Rightarrow> js_error + jsval" where
  "example_JSON_parse json = (if json = ''[]'' then Inr (Arr []) else Inl SyntaxError)"

definition example_world :: world where
  "example_world =
     \<lparr>files = map_of
        [(''/app/txt/input.txt'', ''in''),
         (''/app/txt/append.txt'', ''more''),
         (''/app/templates/template-overview.html'', ''<main>{%PRODUCT_CARDS%}</main>''),
         (''/app/templates/template-card.html'', ''<p>{%PRODUCTNAME%}: {%PRICE%}</p>''),
         (''/app/templates/template-product.html'', ''<h1>{%PRODUCTNAME%}</h1>''),
         (''/app/dev-data/data.json'', ''[]'')],
      writable = (\<lambda>path. True),
      port_free = True,
      console = []\<rparr>"

section \<open>Routing\<close>

text \<open>
  Claim C1. The handler compares the parsed pathname with four fixed strings. Whatever
  the request, exactly one of the four cases holds, the conditions of the other branches
  fail, and the handler is the branch of that case: the overview for \<^verbatim>\<open>/\<close> and
  \<^verbatim>\<open>/overview\<close>, the product page for \<^verbatim>\<open>/product\<close>, the API for \<^verbatim>\<open>/api\<close>, and
  the 404 page for every other pathname (also for none at all).
\<close>

theorem route_exact_total:
  assumes "pathname (url_parse rt (url req)) = p" and "query (url_parse rt (url req)) = q"
  shows "((p = Some ''/'' \<or> p = Some ''/overview'') \<and> p \<noteq> Some ''/product'' \<and> p \<noteq> Some ''/api''
            \<and> requestHandler rt g req res = overviewBranch rt g res)
       \<or> (p = Some ''/product'' \<and> p \<noteq> Some ''/'' \<and> p \<noteq> Some ''/overview'' \<and> p \<noteq> Some ''/api''
            \<and> requestHandler rt g req res = productBranch rt g q res)
       \<or> (p = Some ''/api'' \<and> p \<noteq> Some ''/'' \<and> p \<noteq> Some ''/overview'' \<and> p \<noteq> Some ''/product''
            \<and> requestHandler rt g req res = apiBranch g res)
       \<or> (p \<noteq> Some ''/'' \<and> p \<noteq> Some ''/overview'' \<and> p \<noteq> Some ''/product'' \<and> p \<noteq> Some ''/api''
            \<and> requestHandler rt g req res = notFoundBranch res)"
  using assms by (auto simp: requestHandler_def Let_def)

text \<open>
  The match is on the whole pathname: \<^verbatim>\<open>/api/v2\<close> starts with \<^verbatim>\<open>/api\<close> and still
  gets the 404 page.
\<close>

theorem route_exact_total_witness:
  "requestHandler example_runtime example_globals \<lparr>url = ''/api/v2''\<rparr> fresh_response
     = notFoundBranch fresh_response
   \<and> requestHandler example_runtime example_globals \<lparr>url = ''/api''\<rparr> fresh_response
     = apiBranch example_globals fresh_response
   \<and> requestHandler example_runtime example_globals \<lparr>url = ''/overview''\<rparr> fresh_response
     = overviewBranch example_runtime example_globals fresh_response"
  using route_exact_total [OF refl refl, of example_runtime "\<lparr>url = ''/api/v2''\<rparr>" example_globals fresh_response]
    route_exact_total [OF refl refl, of example_runtime "\<lparr>url = ''/api''\<rparr>" example_globals fresh_response]
    route_exact_total [OF refl refl, of example_runtime "\<lparr>url = ''/overview''\<rparr>" example_globals fresh_response]
  by (simp add: example_runtime_def example_url_parse_def)

text \<open>
  No request falls through: whichever branch is taken, either an exception leaves the
  handler or the head is written and the response is ended.
\<close>

lemma handler_ends_or_throws:
  "fst (requestHandler rt g req res) = None \<Longrightarrow>
     written_head (snd (requestHandler rt g req res)) \<noteq> None
   \<and> ended_body (snd (requestHandler rt g req res)) \<noteq> None"
  by (auto simp: requestHandler_def overviewBranch_def productBranch_def apiBranch_def
        notFoundBranch_def writeHead_def end_response_def Let_def
      split: if_splits sum.splits jsval.splits)

section \<open>The fallback route\<close>

text \<open>
  Claim C5. On a pathname that is none of \<^verbatim>\<open>/\<close>, \<^verbatim>\<open>/overview\<close>, \<^verbatim>\<open>/product\<close> and
  \<^verbatim>\<open>/api\<close> the handler writes status 404 with content type \<^verbatim>\<open>text/html\<close> and the
  header \<^verbatim>\<open>my-own-header: hello-world\<close>, and ends the response with the fixed text
  \<^verbatim>\<open><h1>Page not found</h1>\<close>.
\<close>

theorem not_found_fallback:
  assumes "pathname (url_parse rt (url req)) = p"
    and "p \<noteq> Some ''/''" and "p \<noteq> Some ''/overview''" and "p \<noteq> Some ''/product''" and "p \<noteq> Some ''/api''"
  shows "requestHandler rt g req res =
           (None, res\<lparr>written_head := Some (404, [(''content-type'', ''text/html''), (''my-own-header'', ''hello-world'')]),
                      ended_body := Some ''<h1>Page not found</h1>''\<rparr>)"
  using assms by (simp add: requestHandler_def notFoundBranch_def writeHead_def end_response_def)

theorem not_found_fallback_witness:
  "requestHandler example_runtime example_globals \<lparr>url = ''/does-not-exist''\<rparr> fresh_response =
     (None, \<lparr>written_head = Some (404, [(''content-type'', ''text/html''), (''my-own-header'', ''hello-world'')]),
             ended_body = Some ''<h1>Page not found</h1>''\<rparr>)"
proof -
  have "pathname (url_parse example_runtime (url \<lparr>url = ''/does-not-exist''\<rparr>)) = Some ''/does-not-exist''"
    by (simp add: example_runtime_def example_url_parse_def)
  from not_found_fallback [OF this, of example_globals fresh_response]
  show ?thesis by (simp add: fresh_response_def)
qed

section \<open>The overview route\<close>

lemma get_substitution_plain:
  "CHR ''$'' \<notin> set r \<Longrightarrow> get_substitution m a b r = r"
  by (induction m a b r rule: get_substitution.induct) auto

lemma split_first_Some: "split_first pat s = Some (a, b) \<Longrightarrow> s = a @ pat @ b"
proof (induction s arbitrary: a)
  case Nil
  then show ?case by (auto split: if_splits)
next
  case (Cons c cs)
  show ?case
  proof (cases "prefix pat (c # cs)")
    case True
    with Cons.prems have "a = []" "b = drop (length pat) (c # cs)" by auto
    moreover from True obtain zs where "c # cs = pat @ zs" by (auto simp: prefix_def)
    ultimately show ?thesis by simp
  next
    case False
    with Cons.prems obtain a' where "split_first pat cs = Some (a', b)" "a = c # a'"
      by (auto split: prod.splits)
    with Cons.IH [of a'] show ?thesis by simp
  qed
qed

lemma map_throwing_Inr: "map_throwing f xs = Inr ys \<Longrightarrow> map f xs = map Inr ys"
  by (induction xs arbitrary: ys) (auto split: sum.splits)

lemma js_replace_plain:
  "CHR ''$'' \<notin> set r \<Longrightarrow> split_first pat s = Some (a, b) \<Longrightarrow> js_replace s pat r = a @ r @ b"
  by (simp add: js_replace_def get_substitution_plain)

text \<open>
  When the cards contain no dollar sign, the overview is as intended: status 200,
  content type \<^verbatim>\<open>text/html\<close>, and the template with its first
  \<^verbatim>\<open>{%PRODUCT_CARDS%}\<close> replaced by the cards, one per record, in the order of the
  records.
\<close>

lemma overview_without_dollar:
  assumes "pathname (url_parse rt (url req)) = Some ''/'' \<or> pathname (url_parse rt (url req)) = Some ''/overview''"
    and "dataObj g = Arr els"
    and "map_throwing (replaceTemplateFn rt (tempCard g)) els = Inr cards"
    and "CHR ''$'' \<notin> set (concat cards)"
    and "split_first ''{%PRODUCT_CARDS%}'' (tempOverview g) = Some (a, b)"
  shows "requestHandler rt g req res =
           (None, res\<lparr>written_head := Some (200, [(''content-type'', ''text/html'')]),
                      ended_body := Some (a @ concat cards @ b)\<rparr>)"
  using assms(1,2,3) js_replace_plain [OF assms(4,5)]
  by (auto simp: requestHandler_def overviewBranch_def writeHead_def end_response_def Let_def)

text \<open>
  Claim C3. On \<^verbatim>\<open>/\<close> and \<^verbatim>\<open>/overview\<close> the body should be the overview template
  with the placeholder replaced by the concatenated cards. The handler passes the cards
  to \<^verbatim>\<open>String.prototype.replace\<close> as the replacement string, where a dollar sign
  starts a replacement pattern. On the example data the cards are
  \<^verbatim>\<open><p>Avocado: $$9</p><p>Corn: 2</p>\<close>, and the body the handler sends holds
  \<^verbatim>\<open>$9\<close> where the cards hold \<^verbatim>\<open>$$9\<close>.
\<close>

theorem overview_dollar_expanded:
  "map_throwing (replaceTemplateFn example_runtime (tempCard example_globals))
     [Obj [(''productName'', Str ''Avocado''), (''price'', Str ''$$9'')],
      Obj [(''productName'', Str ''Corn''), (''price'', Num 2)]]
     = Inr [''<p>Avocado: $$9</p>'', ''<p>Corn: 2</p>'']
   \<and> requestHandler example_runtime example_globals \<lparr>url = ''/overview''\<rparr> fresh_response
     = (None, \<lparr>written_head = Some (200, [(''content-type'', ''text/html'')]),
               ended_body = Some ''<main><p>Avocado: $9</p><p>Corn: 2</p></main>''\<rparr>)"
  by code_simp

section \<open>The product route\<close>

subsection \<open>Index keys\<close>

lemma digit_char_inj: "a < 10 \<Longrightarrow> b < 10 \<Longrightarrow> digit_char a = digit_char b \<Longrightarrow> a = b"
proof -
  assume a: "a < 10" and b: "b < 10" and e: "digit_char a = digit_char b"
  have d: "distinct ''0123456789''" by simp
  from a b have "a < length ''0123456789''" "b < length ''0123456789''" by simp_all
  with d e show "a = b" unfolding digit_char_def by (simp only: nth_eq_iff_index_eq)
qed

lemma digit_char_digit: "d < 10 \<Longrightarrow> digit_char d \<in> set ''0123456789''"
  unfolding digit_char_def by (rule nth_mem) simp

lemma show_nat_nonempty: "show_nat n \<noteq> []"
  by (subst show_nat.simps) simp

lemma show_nat_digits: "set (show_nat n) \<subseteq> set ''0123456789''"
proof (induction n rule: show_nat.induct)
  case (1 n)
  show ?case
  proof (cases "n < 10")
    case True
    then show ?thesis using digit_char_digit [of n] by (subst show_nat.simps) simp
  next
    case False
    have "n mod 10 < 10" by simp
    from digit_char_digit [OF this] 1 [OF False] False
    show ?thesis by (subst show_nat.simps) simp
  qed
qed

lemma show_nat_inj: "show_nat m = show_nat n \<Longrightarrow> m = n"
proof (induction m arbitrary: n rule: show_nat.induct)
  case (1 m)
  show ?case
  proof (cases "m < 10")
    case mt: True
    show ?thesis
    proof (cases "n < 10")
      case True
      with mt "1.prems" show ?thesis
        by (simp add: show_nat.simps [of m] show_nat.simps [of n] digit_char_inj)
    next
      case False
      with mt "1.prems" show_nat_nonempty [of "n div 10"] show ?thesis
        by (simp add: show_nat.simps [of m] show_nat.simps [of n])
    qed
  next
    case mf: False
    show ?thesis
    proof (cases "n < 10")
      case True
      with mf "1.prems" show_nat_nonempty [of "m div 10"] show ?thesis
        by (simp add: show_nat.simps [of m] show_nat.simps [of n])
    next
      case False
      with mf "1.prems" have e: "show_nat (m div 10) = show_nat (n div 10)"
        and d: "digit_char (m mod 10) = digit_char (n mod 10)"
        by (simp_all add: show_nat.simps [of m] show_nat.simps [of n])
      from "1.IH" [OF mf e] have "m div 10 = n div 10" .
      moreover from d have "m mod 10 = n mod 10" by (intro digit_char_inj) simp_all
      ultimately show ?thesis by (metis div_mult_mod_eq)
    qed
  qed
qed

lemma own_index_in_range: "i < length xs \<Longrightarrow> own_index xs (show_nat i) = Some (xs ! i)"
proof -
  assume i: "i < length xs"
  have inj: "inj show_nat" by (rule injI) (rule show_nat_inj)
  have dist: "distinct (map fst (zip (map show_nat [0 ..< length xs]) xs))"
    by (simp add: distinct_map inj_on_def show_nat_inj)
  have "(show_nat i, xs ! i) \<in> set (zip (map show_nat [0 ..< length xs]) xs)"
    using i by (auto simp: set_zip intro!: exI [of _ i])
  with dist show ?thesis unfolding own_index_def by (rule map_of_is_SomeI)
qed

lemma own_index_None: "(\<forall>i < length xs. k \<noteq> show_nat i) \<Longrightarrow> own_index xs k = None"
  unfolding own_index_def by (auto simp: map_of_eq_None_iff set_zip image_iff)

lemma own_index_out_of_range: "length xs \<le> i \<Longrightarrow> own_index xs (show_nat i) = None"
  by (rule own_index_None) (auto dest: show_nat_inj)

lemma show_nat_not_word: "CHR ''l'' \<in> set k \<or> CHR ''u'' \<in> set k \<Longrightarrow> k \<noteq> show_nat i"
  using show_nat_digits [of i] by auto

text \<open>
  Claim C4. On the pathname \<^verbatim>\<open>/product\<close>, with \<open>dataObj\<close> an array, the handler
  writes status 200 and content type \<^verbatim>\<open>text/html\<close>, reads the property of the array
  that the \<^verbatim>\<open>id\<close> parameter names, with no check of the parameter, and calls the
  renderer on the product template and what the lookup gave. If the renderer returns,
  the response ends with its result; if it throws, the exception leaves the handler,
  which catches nothing. The lookup gives the record at the index when \<^verbatim>\<open>id\<close> is the
  decimal of an index in range (for \<^verbatim>\<open>id=0\<close> the first record), and what the
  prototype chain holds for the key, \<^verbatim>\<open>undefined\<close> in a plain runtime, when the
  index is out of range, when the parameter is missing (the key is then
  \<^verbatim>\<open>undefined\<close>) and when it is any other string but \<^verbatim>\<open>length\<close>.
\<close>

theorem product_lookup_unvalidated:
  assumes "pathname (url_parse rt (url req)) = Some ''/product''"
    and "query (url_parse rt (url req)) ''id'' = idq"
    and "dataObj g = Arr recs"
  shows "\<exists>product.
           js_get (inherited rt) (dataObj g) (to_property_key idq) = Inr product
         \<and> requestHandler rt g req res =
             (case replaceTemplateFn rt (tempProduct g) product of
                Inl e \<Rightarrow> (Some e, res\<lparr>written_head := Some (200, [(''content-type'', ''text/html'')])\<rparr>)
              | Inr output \<Rightarrow>
                  (None, res\<lparr>written_head := Some (200, [(''content-type'', ''text/html'')]),
                             ended_body := Some output\<rparr>))
         \<and> (\<forall>i. idq = Some (QStr (show_nat i)) \<longrightarrow>
                product = (if i < length recs then recs ! i else inherited rt (Arr recs) (show_nat i)))
         \<and> (idq = None \<longrightarrow> product = inherited rt (Arr recs) ''undefined'')
         \<and> (\<forall>s. idq = Some (QStr s) \<and> s \<noteq> ''length'' \<and> (\<forall>i. s \<noteq> show_nat i) \<longrightarrow>
                product = inherited rt (Arr recs) s)"
proof -
  define key where "key = to_property_key idq"
  define product where "product = (case own_index recs key of
                    Some v \<Rightarrow> v
                  | None \<Rightarrow> if key = ''length'' then Num (int (length recs))
                            else inherited rt (Arr recs) key)"
  have get: "js_get (inherited rt) (dataObj g) (to_property_key idq) = Inr product"
    unfolding product_def key_def using assms(3) by simp
  have branch: "requestHandler rt g req res = productBranch rt g (query (url_parse rt (url req))) res"
    using assms(1) by (simp add: requestHandler_def Let_def)
  have handler: "requestHandler rt g req res =
             (case replaceTemplateFn rt (tempProduct g) product of
                Inl e \<Rightarrow> (Some e, res\<lparr>written_head := Some (200, [(''content-type'', ''text/html'')])\<rparr>)
              | Inr output \<Rightarrow>
                  (None, res\<lparr>written_head := Some (200, [(''content-type'', ''text/html'')]),
                             ended_body := Some output\<rparr>))"
    unfolding branch productBranch_def Let_def assms(2) get
    by (simp add: writeHead_def end_response_def split: sum.splits)
  have numeric: "product = (if i < length recs then recs ! i else inherited rt (Arr recs) (show_nat i))"
    if "idq = Some (QStr (show_nat i))" for i
  proof -
    have k: "key = show_nat i" using that by (simp add: key_def)
    have "show_nat i \<noteq> ''length''" using show_nat_not_word [of "''length''" i] by simp
    then show ?thesis
      unfolding product_def k by (simp add: own_index_in_range own_index_out_of_range)
  qed
  have missing: "product = inherited rt (Arr recs) ''undefined''" if "idq = None"
  proof -
    have k: "key = ''undefined''" using that by (simp add: key_def)
    have "\<And>i. ''undefined'' \<noteq> show_nat i" by (rule show_nat_not_word) simp
    then have "own_index recs ''undefined'' = None" by (intro own_index_None) simp
    then show ?thesis unfolding product_def k by simp
  qed
  have other: "product = inherited rt (Arr recs) s"
    if "idq = Some (QStr s)" and "s \<noteq> ''length''" and "\<forall>i. s \<noteq> show_nat i" for s
  proof -
    have k: "key = s" using that(1) by (simp add: key_def)
    have "own_index recs s = None" using that(3) by (intro own_index_None) simp
    then show ?thesis unfolding product_def k using that(2) by simp
  qed
  show ?thesis
  proof (intro exI [of _ product] conjI allI impI)
    show "js_get (inherited rt) (dataObj g) (to_property_key idq) = Inr product" by (rule get)
    show "requestHandler rt g req res =
             (case replaceTemplateFn rt (tempProduct g) product of
                Inl e \<Rightarrow> (Some e, res\<lparr>written_head := Some (200, [(''content-type'', ''text/html'')])\<rparr>)
              | Inr output \<Rightarrow>
                  (None, res\<lparr>written_head := Some (200, [(''content-type'', ''text/html'')]),
                             ended_body := Some output\<rparr>))" by (rule handler)
    show "product = (if i < length recs then recs ! i else inherited rt (Arr recs) (show_nat i))"
      if "idq = Some (QStr (show_nat i))" for i using that by (rule numeric)
    show "product = inherited rt (Arr recs) ''undefined''" if "idq = None" using that by (rule missing)
    show "product = inherited rt (Arr recs) s"
      if "idq = Some (QStr s) \<and> s \<noteq> ''length'' \<and> (\<forall>i. s \<noteq> show_nat i)" for s
      using that other by blast
  qed
qed

lemma example_lookup_7: "own_index [a, b] ''7'' = None"
  by (simp add: own_index_def upt_rec show_nat.simps digit_char_def)

lemma show_nat_0: "show_nat 0 = ''0''"
  by (simp add: show_nat.simps digit_char_def)

lemma example_render_first:
  "replaceTemplate ''<h1>{%PRODUCTNAME%}</h1>'' [(''productName'', Str ''Avocado''), (''price'', Str ''$$9'')]
     = ''<h1>Avocado</h1>''"
  by code_simp

text \<open>
  The request \<^verbatim>\<open>/product?id=0\<close> on the example data: the first record is rendered.
  The key \<^verbatim>\<open>7\<close> is out of range there, and the lookup gives \<^verbatim>\<open>undefined\<close>.
\<close>

theorem product_lookup_unvalidated_witness:
  "requestHandler example_runtime example_globals \<lparr>url = ''/product?id=0''\<rparr> fresh_response
     = (None, \<lparr>written_head = Some (200, [(''content-type'', ''text/html'')]),
               ended_body = Some ''<h1>Avocado</h1>''\<rparr>)
   \<and> js_get (inherited example_runtime) (dataObj example_globals) ''7'' = Inr Undefined"
proof -
  have out: "js_get (inherited example_runtime) (dataObj example_globals) ''7'' = Inr Undefined"
    by (simp add: example_runtime_def example_globals_def example_lookup_7)
  let ?req = "\<lparr>url = ''/product?id=0''\<rparr>"
  define recs where "recs = [Obj [(''productName'', Str ''Avocado''), (''price'', Str ''$$9'')],
                  Obj [(''productName'', Str ''Corn''), (''price'', Num 2)]]"
  have p: "pathname (url_parse example_runtime (url ?req)) = Some ''/product''"
    by (simp add: example_runtime_def example_url_parse_def)
  have q: "query (url_parse example_runtime (url ?req)) ''id'' = Some (QStr (show_nat 0))"
    by (simp add: example_runtime_def example_url_parse_def show_nat_0)
  have d: "dataObj example_globals = Arr recs"
    by (simp add: example_globals_def recs_def)
  from product_lookup_unvalidated [OF p q d, of fresh_response] show ?thesis
  proof (elim exE conjE)
    fix product
    assume h: "requestHandler example_runtime example_globals ?req fresh_response =
             (case replaceTemplateFn example_runtime (tempProduct example_globals) product of
                Inl e \<Rightarrow> (Some e, fresh_response\<lparr>written_head := Some (200, [(''content-type'', ''text/html'')])\<rparr>)
              | Inr output \<Rightarrow>
                  (None, fresh_response\<lparr>written_head := Some (200, [(''content-type'', ''text/html'')]),
                             ended_body := Some output\<rparr>))"
      and i: "\<forall>i. Some (QStr (show_nat 0)) = Some (QStr (show_nat i)) \<longrightarrow>
                product = (if i < length recs then recs ! i else inherited example_runtime (Arr recs) (show_nat i))"
    from i have "product = (if 0 < length recs then recs ! 0 else inherited example_runtime (Arr recs) (show_nat 0))"
      by (rule allE [of _ 0]) simp
    then have prod: "product = Obj [(''productName'', Str ''Avocado''), (''price'', Str ''$$9'')]"
      by (simp add: recs_def)
    have rend: "replaceTemplateFn example_runtime (tempProduct example_globals)
                  (Obj [(''productName'', Str ''Avocado''), (''price'', Str ''$$9'')])
                = Inr ''<h1>Avocado</h1>''"
      by (simp only: example_runtime_def example_globals_def render_value_def
            runtime.select_convs globals.select_convs jsval.case example_render_first)
    show ?thesis
      unfolding h prod rend out by (simp add: fresh_response_def)
  qed
qed

text \<open>
  Claim C10. On the pathname \<^verbatim>\<open>/product\<close> the call of \<^verbatim>\<open>res.writeHead\<close> comes
  first, so the response carries status 200 and content type \<^verbatim>\<open>text/html\<close> whatever
  the \<^verbatim>\<open>id\<close> parameter is, whatever the lookup finds and whether or not the renderer
  throws.
\<close>

theorem product_head_first:
  assumes "pathname (url_parse rt (url req)) = Some ''/product''"
  shows "written_head (snd (requestHandler rt g req res)) = Some (200, [(''content-type'', ''text/html'')])"
  using assms
  by (simp add: requestHandler_def productBranch_def writeHead_def end_response_def Let_def
           split: sum.splits)

text \<open>
  An index out of range: the lookup gives \<^verbatim>\<open>undefined\<close>, the example renderer throws,
  and the head is written all the same.
\<close>

theorem product_head_first_witness:
  "written_head (snd (requestHandler example_runtime example_globals \<lparr>url = ''/product?id=7''\<rparr> fresh_response))
     = Some (200, [(''content-type'', ''text/html'')])
   \<and> requestHandler example_runtime example_globals \<lparr>url = ''/product?id=7''\<rparr> fresh_response
     = (Some TypeError, \<lparr>written_head = Some (200, [(''content-type'', ''text/html'')]), ended_body = None\<rparr>)"
proof -
  have "pathname (url_parse example_runtime (url \<lparr>url = ''/product?id=7''\<rparr>)) = Some ''/product''"
    by (simp add: example_runtime_def example_url_parse_def)
  from product_head_first [OF this, of example_globals fresh_response]
  show ?thesis
    by (simp add: requestHandler_def productBranch_def example_runtime_def example_url_parse_def
          example_globals_def example_lookup_7 render_value_def writeHead_def fresh_response_def)
qed

section \<open>Failures at startup\<close>

lemma path_not_final:
  "dirname @ ''/templates/template-overview.html'' \<noteq> ''final.txt''"
  "dirname @ ''/templates/template-card.html'' \<noteq> ''final.txt''"
  "dirname @ ''/templates/template-product.html'' \<noteq> ''final.txt''"
  "dirname @ ''/dev-data/data.json'' \<noteq> ''final.txt''"
proof -
  have "last (dirname @ ''/templates/template-overview.html'') \<noteq> last ''final.txt''" by simp
  then show "dirname @ ''/templates/template-overview.html'' \<noteq> ''final.txt''" by metis
  have "last (dirname @ ''/templates/template-card.html'') \<noteq> last ''final.txt''" by simp
  then show "dirname @ ''/templates/template-card.html'' \<noteq> ''final.txt''" by metis
  have "last (dirname @ ''/templates/template-product.html'') \<noteq> last ''final.txt''" by simp
  then show "dirname @ ''/templates/template-product.html'' \<noteq> ''final.txt''" by metis
  have "last (dirname @ ''/dev-data/data.json'') \<noteq> last ''final.txt''" by simp
  then show "dirname @ ''/dev-data/data.json'' \<noteq> ''final.txt''" by metis
qed

lemma top_level_Listening_reads:
  assumes "top_level JSON_parse dirname w = Listening g w'"
  shows "files w (dirname @ ''/txt/input.txt'') \<noteq> None"
    and "files w (dirname @ ''/txt/append.txt'') \<noteq> None"
    and "files w (dirname @ ''/templates/template-overview.html'') = Some (tempOverview g)"
    and "files w (dirname @ ''/templates/template-card.html'') = Some (tempCard g)"
    and "files w (dirname @ ''/templates/template-product.html'') = Some (tempProduct g)"
    and "files w (dirname @ ''/dev-data/data.json'') = Some (data g)"
    and "JSON_parse (data g) = Inr (dataObj g)"
  using assms
  by (auto simp: top_level_def readFileSync_def writeFileSync_def console_log_def Let_def path_not_final
           split: option.splits sum.splits if_splits)

lemma read_chain_first_fails:
  "files w (dirname @ ''/txt/start.txt'') = None \<Longrightarrow> read_chain dirname w = console_log ''error!'' w"
  by (simp add: read_chain_def readFileSync_def)

lemma read_chain_second_fails:
  "files w (dirname @ ''/txt/start.txt'') = Some name \<Longrightarrow>
   files w (dirname @ ''/txt/'' @ name @ ''.txt'') = None \<Longrightarrow>
   read_chain dirname w = console_log ''error!'' w"
  by (simp add: read_chain_def readFileSync_def)

text \<open>
  Claim C8, amended. A failure of one of the six synchronous reads of startup (the two
  text files of lines 15 and 16, the three templates, the JSON data) ends the process
  before it listens. A failure inside the chain of asynchronous reads does not: the
  synchronous code has then already brought the server up, and the callback that gets
  the error only logs \<^verbatim>\<open>error!\<close> and ends the chain.
\<close>

theorem startup_read_failures:
  "(path \<in> {dirname @ ''/txt/input.txt'', dirname @ ''/txt/append.txt'',
             dirname @ ''/templates/template-overview.html'',
             dirname @ ''/templates/template-card.html'',
             dirname @ ''/templates/template-product.html'',
             dirname @ ''/dev-data/data.json''}
      \<and> files w path = None
    \<longrightarrow> (\<exists>e w'. startup JSON_parse dirname w = Aborted e w'))
   \<and> (top_level JSON_parse dirname w = Listening g w1 \<longrightarrow>
        startup JSON_parse dirname w = Listening g (read_chain dirname w1)
      \<and> (files w1 (dirname @ ''/txt/start.txt'') = None \<longrightarrow>
           read_chain dirname w1 = console_log ''error!'' w1)
      \<and> (\<forall>name. files w1 (dirname @ ''/txt/start.txt'') = Some name
              \<and> files w1 (dirname @ ''/txt/'' @ name @ ''.txt'') = None \<longrightarrow>
           read_chain dirname w1 = console_log ''error!'' w1))"
proof (intro conjI impI allI)
  assume a: "path \<in> {dirname @ ''/txt/input.txt'', dirname @ ''/txt/append.txt'',
             dirname @ ''/templates/template-overview.html'',
             dirname @ ''/templates/template-card.html'',
             dirname @ ''/templates/template-product.html'',
             dirname @ ''/dev-data/data.json''}
      \<and> files w path = None"
  show "\<exists>e w'. startup JSON_parse dirname w = Aborted e w'"
  proof (cases "top_level JSON_parse dirname w")
    case (Aborted e w')
    then show ?thesis by (simp add: startup_def)
  next
    case (Listening g' w')
    from top_level_Listening_reads [OF this] a show ?thesis by auto
  qed
next
  assume "top_level JSON_parse dirname w = Listening g w1"
  then show "startup JSON_parse dirname w = Listening g (read_chain dirname w1)"
    by (simp add: startup_def)
next
  assume "files w1 (dirname @ ''/txt/start.txt'') = None"
  then show "read_chain dirname w1 = console_log ''error!'' w1" by (rule read_chain_first_fails)
next
  fix name
  assume "files w1 (dirname @ ''/txt/start.txt'') = Some name
              \<and> files w1 (dirname @ ''/txt/'' @ name @ ''.txt'') = None"
  then show "read_chain dirname w1 = console_log ''error!'' w1"
    by (auto intro: read_chain_second_fails)
qed

lemma example_top_level:
  "top_level example_JSON_parse ''/app'' example_world =
     Listening \<lparr>tempOverview = ''<main>{%PRODUCT_CARDS%}</main>'',
                tempCard = ''<p>{%PRODUCTNAME%}: {%PRICE%}</p>'',
                tempProduct = ''<h1>{%PRODUCTNAME%}</h1>'',
                data = ''[]'', dataObj = Arr []\<rparr>
       (example_world\<lparr>files := (files example_world)
                        (''/app/txt/output.txt'' \<mapsto> ''Hello World!'',
                         ''final.txt'' \<mapsto> ''in'' @ [CHR 0x0A] @ ''more''),
                      console := [''Text written!'', ''Final text written!'',
                                  ''Listening to local host...'']\<rparr>)"
  by (simp add: top_level_def example_world_def example_JSON_parse_def readFileSync_def
        writeFileSync_def console_log_def)

text \<open>
  Claim C8 as stated fails: in the example world the first file of the chain,
  \<^verbatim>\<open>txt/start.txt\<close>, cannot be read, and the process logs \<^verbatim>\<open>error!\<close> and listens.
\<close>

theorem async_read_failure_not_fatal:
  "readFileSync example_world ''/app/txt/start.txt'' = Inl (SystemError ''/app/txt/start.txt'')
   \<and> startup example_JSON_parse ''/app'' example_world =
      Listening \<lparr>tempOverview = ''<main>{%PRODUCT_CARDS%}</main>'',
                tempCard = ''<p>{%PRODUCTNAME%}: {%PRICE%}</p>'',
                tempProduct = ''<h1>{%PRODUCTNAME%}</h1>'',
                data = ''[]'', dataObj = Arr []\<rparr>
       (example_world\<lparr>files := (files example_world)
                        (''/app/txt/output.txt'' \<mapsto> ''Hello World!'',
                         ''final.txt'' \<mapsto> ''in'' @ [CHR 0x0A] @ ''more''),
                      console := [''Text written!'', ''Final text written!'',
                                  ''Listening to local host...'', ''error!'']\<rparr>)"
proof -
  have "readFileSync example_world ''/app/txt/start.txt'' = Inl (SystemError ''/app/txt/start.txt'')"
    by (simp add: readFileSync_def example_world_def)
  moreover have "startup example_JSON_parse ''/app'' example_world =
      Listening \<lparr>tempOverview = ''<main>{%PRODUCT_CARDS%}</main>'',
                tempCard = ''<p>{%PRODUCTNAME%}: {%PRICE%}</p>'',
                tempProduct = ''<h1>{%PRODUCTNAME%}</h1>'',
                data = ''[]'', dataObj = Arr []\<rparr>
       (example_world\<lparr>files := (files example_world)
                        (''/app/txt/output.txt'' \<mapsto> ''Hello World!'',
                         ''final.txt'' \<mapsto> ''in'' @ [CHR 0x0A] @ ''more''),
                      console := [''Text written!'', ''Final text written!'',
                                  ''Listening to local host...'', ''error!'']\<rparr>)"
    unfolding startup_def example_top_level
    by (simp add: read_chain_def readFileSync_def console_log_def example_world_def)
  ultimately show ?thesis by simp
qed

theorem startup_read_failures_witness:
  "(\<exists>e w'. startup example_JSON_parse ''/app''
              (example_world\<lparr>files := (files example_world)(''/app/templates/template-card.html'' := None)\<rparr>)
            = Aborted e w')
   \<and> (\<exists>g w1. startup example_JSON_parse ''/app'' example_world = Listening g (console_log ''error!'' w1))"
proof -
  let ?w = "example_world\<lparr>files := (files example_world)(''/app/templates/template-card.html'' := None)\<rparr>"
  have "''/app/templates/template-card.html'' \<in> {''/app'' @ ''/txt/input.txt'', ''/app'' @ ''/txt/append.txt'',
             ''/app'' @ ''/templates/template-overview.html'',
             ''/app'' @ ''/templates/template-card.html'',
             ''/app'' @ ''/templates/template-product.html'',
             ''/app'' @ ''/dev-data/data.json''}
      \<and> files ?w ''/app/templates/template-card.html'' = None" by simp
  with startup_read_failures [of "''/app/templates/template-card.html''" "''/app''" ?w example_JSON_parse]
  have a: "\<exists>e w'. startup example_JSON_parse ''/app'' ?w = Aborted e w'" by blast
  have s: "files (example_world\<lparr>files := (files example_world)
                        (''/app/txt/output.txt'' \<mapsto> ''Hello World!'',
                         ''final.txt'' \<mapsto> ''in'' @ [CHR 0x0A] @ ''more''),
                      console := [''Text written!'', ''Final text written!'',
                                  ''Listening to local host...'']\<rparr>) (''/app'' @ ''/txt/start.txt'') = None"
    by (simp add: example_world_def)
  from startup_read_failures [of _ "''/app''" example_world example_JSON_parse, THEN conjunct2, rule_format, OF example_top_level] s
  have "\<exists>g w1. startup example_JSON_parse ''/app'' example_world = Listening g (console_log ''error!'' w1)"
    by metis
  with a show ?thesis by blast
qed

section \<open>The API route\<close>

text \<open>
  Claim C2. On the pathname \<^verbatim>\<open>/api\<close> the handler writes status 200 with content type
  \<^verbatim>\<open>application/json\<close> and ends the response with \<open>data\<close> as it is. The parsed
  value \<open>dataObj\<close> plays no part: the response is the same whatever it holds. And
  when the constants are those that startup has loaded, \<open>data\<close> is the text that
  startup read from \<^verbatim>\<open>dev-data/data.json\<close>, so the body is the text of that file,
  character for character.
\<close>

theorem api_raw_json:
  assumes "pathname (url_parse rt (url req)) = Some ''/api''"
  shows "requestHandler rt g req res =
           (None, res\<lparr>written_head := Some (200, [(''content-type'', ''application/json'')]),
                      ended_body := Some (data g)\<rparr>)
         \<and> (\<forall>v. requestHandler rt (g\<lparr>dataObj := v\<rparr>) req res = requestHandler rt g req res)
         \<and> (\<forall>JSON_parse dirname w w'.
               startup JSON_parse dirname w = Listening g w' \<longrightarrow>
                 files w (dirname @ ''/dev-data/data.json'') = Some (data g)
               \<and> ended_body (snd (requestHandler rt g req res))
                   = files w (dirname @ ''/dev-data/data.json''))"
proof (intro conjI allI impI)
  show h: "requestHandler rt g req res =
           (None, res\<lparr>written_head := Some (200, [(''content-type'', ''application/json'')]),
                      ended_body := Some (data g)\<rparr>)"
    using assms by (simp add: requestHandler_def apiBranch_def writeHead_def end_response_def)
  show "requestHandler rt (g\<lparr>dataObj := v\<rparr>) req res = requestHandler rt g req res" for v
    using assms by (simp add: requestHandler_def apiBranch_def writeHead_def end_response_def)
  fix JSON_parse dirname w w'
  assume s: "startup JSON_parse dirname w = Listening g w'"
  then obtain w1 where t: "top_level JSON_parse dirname w = Listening g w1"
    by (auto simp: startup_def split: process.splits)
  from top_level_Listening_reads(6) [OF t]
  show f: "files w (dirname @ ''/dev-data/data.json'') = Some (data g)" .
  show "ended_body (snd (requestHandler rt g req res)) = files w (dirname @ ''/dev-data/data.json'')"
    unfolding h f by simp
qed

text \<open>
  The example constants, and the constants that startup loads in the example world:
  the body of \<^verbatim>\<open>/api\<close> is the text of the world's \<^verbatim>\<open>data.json\<close>.
\<close>

theorem api_raw_json_witness:
  \<open>requestHandler example_runtime example_globals \<lparr>url = ''/api''\<rparr> fresh_response =
     (None, \<lparr>written_head = Some (200, [(''content-type'', ''application/json'')]),
             ended_body = Some ''[{"productName":"Avocado","price":"$$9"},{"productName":"Corn","price":2}]''\<rparr>)
   \<and> requestHandler example_runtime
        \<lparr>tempOverview = ''<main>{%PRODUCT_CARDS%}</main>'',
         tempCard = ''<p>{%PRODUCTNAME%}: {%PRICE%}</p>'',
         tempProduct = ''<h1>{%PRODUCTNAME%}</h1>'',
         data = ''[]'', dataObj = Arr []\<rparr>
        \<lparr>url = ''/api''\<rparr> fresh_response =
     (None, \<lparr>written_head = Some (200, [(''content-type'', ''application/json'')]),
             ended_body = files example_world ''/app/dev-data/data.json''\<rparr>)
   \<and> files example_world ''/app/dev-data/data.json'' = Some ''[]''\<close>
proof -
  let ?g = "\<lparr>tempOverview = ''<main>{%PRODUCT_CARDS%}</main>'',
         tempCard = ''<p>{%PRODUCTNAME%}: {%PRICE%}</p>'',
         tempProduct = ''<h1>{%PRODUCTNAME%}</h1>'',
         data = ''[]'', dataObj = Arr []\<rparr>"
  have p: "pathname (url_parse example_runtime (url \<lparr>url = ''/api''\<rparr>)) = Some ''/api''"
    by (simp add: example_runtime_def example_url_parse_def)
  have s: "startup example_JSON_parse ''/app'' example_world =
             Listening ?g (read_chain ''/app''
               (example_world\<lparr>files := (files example_world)
                        (''/app/txt/output.txt'' \<mapsto> ''Hello World!'',
                         ''final.txt'' \<mapsto> ''in'' @ [CHR 0x0A] @ ''more''),
                      console := [''Text written!'', ''Final text written!'',
                                  ''Listening to local host...'']\<rparr>))"
    unfolding startup_def example_top_level by simp
  from api_raw_json [OF p, of example_globals fresh_response]
  have a: "requestHandler example_runtime example_globals \<lparr>url = ''/api''\<rparr> fresh_response =
     (None, \<lparr>written_head = Some (200, [(''content-type'', ''application/json'')]),
             ended_body = Some (data example_globals)\<rparr>)"
    by (simp add: fresh_response_def)
  from api_raw_json [OF p, of ?g fresh_response] s
  have b: "requestHandler example_runtime ?g \<lparr>url = ''/api''\<rparr> fresh_response =
             (None, \<lparr>written_head = Some (200, [(''content-type'', ''application/json'')]),
                     ended_body = Some ''[]''\<rparr>)"
    and c: "files example_world (''/app'' @ ''/dev-data/data.json'') = Some (data ?g)"
    by (simp add: fresh_response_def, blast)
  from c have c': "files example_world ''/app/dev-data/data.json'' = Some ''[]''" by simp
  show ?thesis unfolding a b c' by (simp add: example_globals_def)
qed

section \<open>No state between requests\<close>



lemma map_by_ref_results: "fst (map_by_ref f els) = map_throwing (\<lambda>el. fst (f el)) els"
  by (induction els) (auto split: prod.splits sum.splits)





text \<open>
  The handler with references is the handler of the sections above: what it throws and
  what it responds are what \<open>requestHandler\<close> gives for the renderer's results.
\<close>

lemma handler_by_ref_agrees:
  "(fst (requestHandler_by_ref rt render g req res), fst (snd (requestHandler_by_ref rt render g req res)))
     = requestHandler (rt\<lparr>replaceTemplateFn := \<lambda>temp v. fst (render temp v)\<rparr>) g req res"
proof -
  have ov: "(fst (overviewBranch_by_ref render g res), fst (snd (overviewBranch_by_ref render g res)))
      = overviewBranch (rt\<lparr>replaceTemplateFn := \<lambda>temp v. fst (render temp v)\<rparr>) g res"
  proof (cases "dataObj g")
    case (Arr els)
    from map_by_ref_results [of "render (tempCard g)" els] Arr show ?thesis
      by (auto simp: overviewBranch_by_ref_def overviewBranch_def Let_def
               split: prod.splits sum.splits)
  qed (simp_all add: overviewBranch_by_ref_def overviewBranch_def)
  have pr: "(fst (productBranch_by_ref rt render g q res), fst (snd (productBranch_by_ref rt render g q res)))
      = productBranch (rt\<lparr>replaceTemplateFn := \<lambda>temp v. fst (render temp v)\<rparr>) g q res" for q
    by (auto simp: productBranch_by_ref_def productBranch_def Let_def split: prod.splits sum.splits)
  show ?thesis
    by (simp add: requestHandler_by_ref_def requestHandler_def Let_def ov pr)
qed








text \<open>
  The condition on the renderer is needed: one that overwrites the records it is handed
  leaves \<open>dataObj\<close> changed after a single request for the overview.
\<close>

lemma renderer_with_effect_changes_records:
  "dataObj (snd (snd (requestHandler_by_ref example_runtime (\<lambda>temp v. (Inr temp, Null))
                        example_globals \<lparr>url = ''/overview''\<rparr> fresh_response)))
     = Arr [Null, Null]"
  by code_simp

section \<open>What the renderer replaces\<close>

lemma to_upper_brace: "to_upper c = CHR ''{'' \<longleftrightarrow> c = CHR ''{''"
  by (auto simp: to_upper_def split: option.splits if_splits)

lemma to_upper_percent: "to_upper c = CHR ''%'' \<longleftrightarrow> c = CHR ''%''"
  by (auto simp: to_upper_def split: option.splits if_splits)

lemma name_ok_upper: "name_ok name \<Longrightarrow> name_ok (map to_upper name)"
  by (auto simp: name_ok_def image_iff to_upper_brace to_upper_percent
        eq_commute [of "CHR ''{''"] eq_commute [of "CHR ''%''"])

lemma clean_tl: "clean (c # cs) \<Longrightarrow> clean cs"
  by (cases cs) auto

lemma replaceAll_skip_clean:
  "clean s \<Longrightarrow> replaceAll (''{%'' @ p) rep (s @ rest) = s @ replaceAll (''{%'' @ p) rep rest"
proof (induction s rule: clean.induct)
  case 1
  show ?case by simp
next
  case (2 c)
  then show ?case by simp
next
  case (3 c d cs)
  then show ?case by auto
qed

lemma no_brace_clean: "CHR ''{'' \<notin> set s \<Longrightarrow> clean s"
  by (induction s rule: clean.induct) auto

lemma name_suffix_not_prefix:
  "name_ok k \<Longrightarrow> name_ok n \<Longrightarrow> n \<noteq> k \<Longrightarrow> \<not> prefix (k @ ''%}'') (n @ ''%}'' @ rest)"
proof (induction k arbitrary: n)
  case Nil
  then show ?case by (cases n) (auto simp: name_ok_def)
next
  case (Cons a k)
  show ?case
  proof (cases n)
    case Nil
    with Cons.prems show ?thesis by (auto simp: name_ok_def)
  next
    case (Cons b n')
    with Cons.prems Cons.IH [of n'] show ?thesis by (auto simp: name_ok_def)
  qed
qed

lemma replaceAll_token:
  assumes "name_ok k" and "name_ok n"
  shows "replaceAll (token k) rep (token n @ rest) =
           (if n = k then rep else token n) @ replaceAll (token k) rep rest"
proof (cases "n = k")
  case True
  then show ?thesis by (simp add: token_def)
next
  case False
  have np: "\<not> prefix (k @ ''%}'') (n @ ''%}'' @ rest)"
    using name_suffix_not_prefix [OF assms False] .
  have cl: "clean (CHR ''%'' # n @ ''%}'')"
    using assms(2) by (intro no_brace_clean) (auto simp: name_ok_def)
  have "replaceAll (token k) rep (token n @ rest) =
          CHR ''{'' # replaceAll (token k) rep ((CHR ''%'' # n @ ''%}'') @ rest)"
    using np by (simp add: token_def)
  also have "\<dots> = CHR ''{'' # (CHR ''%'' # n @ ''%}'') @ replaceAll (token k) rep rest"
    using replaceAll_skip_clean [OF cl, of "k @ ''%}''" rep rest] by (simp add: token_def)
  finally show ?thesis using False by (simp add: token_def)
qed

lemma replaceAll_flatten:
  assumes "name_ok k" and "\<forall>seg \<in> set segs. seg_ok seg"
  shows "replaceAll (token k) rep (flatten segs) = flatten (map (subst k rep) segs)"
  using assms(2)
proof (induction segs)
  case Nil
  show ?case by (simp add: flatten_def)
next
  case (Cons seg segs)
  then have IH: "replaceAll (token k) rep (flatten segs) = flatten (map (subst k rep) segs)" by simp
  show ?case
  proof (cases seg)
    case (Lit s)
    with Cons.prems have "clean s" by simp
    from replaceAll_skip_clean [OF this, of "k @ ''%}''" rep "flatten segs"] IH Lit
    show ?thesis by (simp add: flatten_def token_def)
  next
    case (Hole n)
    with Cons.prems have "name_ok n" by simp
    from replaceAll_token [OF assms(1) this, of rep "flatten segs"] IH Hole
    show ?thesis by (simp add: flatten_def)
  qed
qed

lemma subst_ok: "clean rep \<Longrightarrow> seg_ok seg \<Longrightarrow> seg_ok (subst k rep seg)"
  by (cases seg) auto

lemma fill_subst:
  "fill props (subst (map to_upper field) (to_text v) seg) = fill ((field, v) # props) seg"
  by (cases seg) auto

lemma replaceTemplate_flatten:
  assumes "\<forall>seg \<in> set segs. seg_ok seg"
    and "\<forall>(field, v) \<in> set props. name_ok field \<and> clean (to_text v)"
  shows "replaceTemplate (flatten segs) props = concat (map (fill props) segs)"
  using assms
proof (induction props arbitrary: segs)
  case Nil
  have "\<And>seg. fill [] seg = seg_text seg" by (case_tac seg) auto
  then show ?case by (simp add: flatten_def)
next
  case (Cons fv props)
  obtain field v where fv: "fv = (field, v)" by (cases fv)
  from Cons.prems fv have ok: "name_ok field" "clean (to_text v)" by auto
  let ?segs' = "map (subst (map to_upper field) (to_text v)) segs"
  have segs': "\<forall>seg \<in> set ?segs'. seg_ok seg"
    using Cons.prems(1) ok(2) by (auto intro: subst_ok)
  have "replaceTemplate (flatten segs) (fv # props) = replaceTemplate (flatten ?segs') props"
    using replaceAll_flatten [OF name_ok_upper [OF ok(1)] Cons.prems(1)]
    by (simp add: fv placeholder_def)
  also have "\<dots> = concat (map (fill props) ?segs')"
    using Cons.IH [OF segs'] Cons.prems(2) by simp
  also have "\<dots> = concat (map (fill (fv # props)) segs)"
    by (simp add: fv fill_subst o_def)
  finally show ?case .
qed

lemma clean_append: "clean a \<Longrightarrow> clean b \<Longrightarrow> clean (a @ b)"
proof (induction a rule: clean.induct)
  case 1
  then show ?case by simp
next
  case (2 c)
  then show ?case by (cases b) auto
next
  case (3 c d cs)
  then show ?case by auto
qed

lemma clean_concat: "\<forall>s \<in> set ss. clean s \<Longrightarrow> clean (concat ss)"
  by (induction ss) (auto intro: clean_append)

lemma clean_no_open: "clean s \<Longrightarrow> \<not> sublist (''{%'' @ x) s"
proof
  assume c: "clean s" and "sublist (''{%'' @ x) s"
  then obtain ps ss where s: "s = ps @ (''{%'' @ x) @ ss" by (auto simp: sublist_def)
  have "\<not> clean (ps @ CHR ''{'' # CHR ''%'' # r)" for r
  proof (induction ps)
    case Nil
    show ?case by simp
  next
    case (Cons a ps)
    then show ?case using clean_tl by auto
  qed
  with c s show False by simp
qed

lemma fill_clean:
  assumes "seg_ok seg"
    and "\<forall>(field, v) \<in> set props. name_ok field \<and> clean (to_text v)"
    and "\<forall>name. seg = Hole name \<longrightarrow> name \<in> (\<lambda>(field, v). map to_upper field) ` set props"
  shows "clean (fill props seg)"
proof (cases seg)
  case (Lit s)
  with assms(1) show ?thesis by simp
next
  case (Hole name)
  let ?m = "map_of (map (\<lambda>(field, v). (map to_upper field, to_text v)) props)"
  from assms(3) Hole have "name \<in> fst ` set (map (\<lambda>(field, v). (map to_upper field, to_text v)) props)"
    by (force simp: image_iff)
  then obtain str where t: "?m name = Some str"
    by (metis map_of_eq_None_iff not_Some_eq)
  then have "(name, str) \<in> set (map (\<lambda>(field, v). (map to_upper field, to_text v)) props)"
    by (rule map_of_SomeD)
  with assms(2) have "clean str" by auto
  with t Hole show ?thesis by simp
qed

text \<open>
  Claim C6, amended. Take a record whose field names have no opening brace and no
  percent sign and whose values, as text, are clean, and a template made of clean
  literal chunks and placeholders with well-formed names. Then the renderer returns the
  template with every placeholder that names a field of the record (in upper case)
  replaced by the text of the first such field's value, and every other placeholder as
  it was. If every placeholder names a field of the record, the result contains no
  \<^verbatim>\<open>{%\<close> at all, hence the placeholder of no field.
\<close>

theorem render_fills_placeholders:
  assumes "\<forall>seg \<in> set segs. seg_ok seg"
    and "\<forall>(field, v) \<in> set props. name_ok field \<and> clean (to_text v)"
  shows "replaceTemplate (flatten segs) props = concat (map (fill props) segs)
       \<and> ((\<forall>name. Hole name \<in> set segs \<longrightarrow> name \<in> (\<lambda>(field, v). map to_upper field) ` set props)
            \<longrightarrow> (\<forall>x. \<not> sublist (''{%'' @ x) (replaceTemplate (flatten segs) props))
              \<and> (\<forall>field. \<not> sublist (placeholder field) (replaceTemplate (flatten segs) props)))"
proof (intro conjI impI)
  show eq: "replaceTemplate (flatten segs) props = concat (map (fill props) segs)"
    using assms by (rule replaceTemplate_flatten)
  assume all: "\<forall>name. Hole name \<in> set segs \<longrightarrow> name \<in> (\<lambda>(field, v). map to_upper field) ` set props"
  have "\<forall>s \<in> set (map (fill props) segs). clean s"
    using assms all by (auto intro!: fill_clean)
  then have c: "clean (replaceTemplate (flatten segs) props)"
    unfolding eq by (rule clean_concat)
  then show "\<forall>x. \<not> sublist (''{%'' @ x) (replaceTemplate (flatten segs) props)"
    by (auto dest: clean_no_open)
  from c show "\<forall>field. \<not> sublist (placeholder field) (replaceTemplate (flatten segs) props)"
    by (auto simp: placeholder_def token_def dest: clean_no_open)
qed

text \<open>
  Claim C6 as stated fails where a value holds a placeholder itself: the template
  \<^verbatim>\<open>{%A%}\<close> has one placeholder, of the field \<^verbatim>\<open>a\<close>, and rendered with
  \<^verbatim>\<open>a = "{%A%}"\<close> it still is the placeholder of \<^verbatim>\<open>a\<close>.
\<close>

theorem render_keeps_value_token:
  "flatten [Hole ''A''] = ''{%A%}''
   \<and> placeholder ''a'' = ''{%A%}''
   \<and> replaceTemplate ''{%A%}'' [(''a'', Str ''{%A%}'')] = ''{%A%}''"
  by code_simp

text \<open>
  A value need not hold a placeholder for one to appear: an empty value between an
  opening brace and the rest of a token joins them. This is why the literal text must
  not end in an opening brace.
\<close>

lemma render_joins_token:
  "replaceTemplate ''{{%A%}%B%}'' [(''b'', Str ''x''), (''a'', Str [])] = placeholder ''b''"
  by code_simp

lemma example_card_segments:
  "flatten [Lit ''<p>'', Hole ''PRODUCTNAME'', Lit '': '', Hole ''PRICE'', Lit ''</p>'']
     = ''<p>{%PRODUCTNAME%}: {%PRICE%}</p>''"
  "concat (map (fill [(''productName'', Str ''Avocado''), (''price'', Num 2)])
             [Lit ''<p>'', Hole ''PRODUCTNAME'', Lit '': '', Hole ''PRICE'', Lit ''</p>''])
     = ''<p>Avocado: 2</p>''"
  "map to_upper ''productName'' = ''PRODUCTNAME''"
  "map to_upper ''price'' = ''PRICE''"
  "\<forall>seg \<in> set [Lit ''<p>'', Hole ''PRODUCTNAME'', Lit '': '', Hole ''PRICE'', Lit ''</p>'']. seg_ok seg"
  "\<forall>(field, v) \<in> set [(''productName'', Str ''Avocado''), (''price'', Num 2)].
      name_ok field \<and> clean (to_text v)"
  by code_simp+

theorem render_fills_placeholders_witness:
  "replaceTemplate ''<p>{%PRODUCTNAME%}: {%PRICE%}</p>''
       [(''productName'', Str ''Avocado''), (''price'', Num 2)]
     = ''<p>Avocado: 2</p>''
   \<and> \<not> sublist (placeholder ''price'')
         (replaceTemplate ''<p>{%PRODUCTNAME%}: {%PRICE%}</p>''
            [(''productName'', Str ''Avocado''), (''price'', Num 2)])"
proof -
  let ?segs = "[Lit ''<p>'', Hole ''PRODUCTNAME'', Lit '': '', Hole ''PRICE'', Lit ''</p>'']"
  let ?props = "[(''productName'', Str ''Avocado''), (''price'', Num 2)]"
  have holes: "\<forall>name. Hole name \<in> set ?segs \<longrightarrow>
                 name \<in> (\<lambda>(field, v). map to_upper field) ` set ?props"
  proof (intro allI impI)
    fix name
    assume "Hole name \<in> set ?segs"
    then have "name = ''PRODUCTNAME'' \<or> name = ''PRICE''" by simp
    then show "name \<in> (\<lambda>(field, v). map to_upper field) ` set ?props"
    proof
      assume "name = ''PRODUCTNAME''"
      then have "name = (\<lambda>(field, v). map to_upper field) (''productName'', Str ''Avocado'')"
        by (simp only: example_card_segments(3) prod.case)
      then show ?thesis by (rule image_eqI) simp
    next
      assume "name = ''PRICE''"
      then have "name = (\<lambda>(field, v). map to_upper field) (''price'', Num 2)"
        by (simp only: example_card_segments(4) prod.case)
      then show ?thesis by (rule image_eqI) simp
    qed
  qed
  from render_fills_placeholders [OF example_card_segments(5,6)] holes
  have "replaceTemplate (flatten ?segs) ?props = concat (map (fill ?props) ?segs)"
    and "\<not> sublist (placeholder ''price'') (replaceTemplate (flatten ?segs) ?props)"
    by blast+
  then show ?thesis unfolding example_card_segments(1,2) by simp
qed

end
